theory Spec2Isabelle
  imports Main "HOL-Library.Sublist" "HOL-Library.Char_ord"
begin

chapter \<open>The program\<close>

section \<open>The browser storage and the request wrapper (frontend/src/api.js)\<close>

text \<open>
  \<^verbatim>\<open>localStorage\<close> is a map from keys to strings; \<^verbatim>\<open>getItem\<close> of a missing key is
  \<^verbatim>\<open>null\<close>, modelled as \<open>None\<close>. The page (\<^verbatim>\<open>window.location.reload()\<close>) and the
  network (\<^verbatim>\<open>fetch\<close>) are the other two effects of \<^verbatim>\<open>api.js\<close>: the number of reloads and
  the requests sent are kept in the state.
\<close>

type_synonym storage = "string \<rightharpoonup> string"

record request =
  req_method :: string
  req_url :: string
  req_headers :: "(string \<times> string) list"
  req_body :: "string option"

text \<open>
  The body of a response, as \<^verbatim>\<open>res.json()\<close> gives it: no JSON at all (the promise rejects),
  the JSON \<^verbatim>\<open>null\<close>, an object read for its \<^verbatim>\<open>detail\<close>, the login data
  \<^verbatim>\<open>{ access_token, user }\<close>, or any other JSON value. A \<^verbatim>\<open>detail\<close> is \<open>Falsy\<close> (missing,
  \<^verbatim>\<open>null\<close>, \<^verbatim>\<open>false\<close>, \<^verbatim>\<open>0\<close>, the empty string) or \<open>Truthy s\<close>, with \<open>s\<close> the text that
  \<^verbatim>\<open>new Error(detail)\<close> makes of it: the string itself, or the text of another truthy value.
\<close>

datatype detail = Falsy | Truthy string

datatype body =
  NoJson
  | NullJson
  | Detail detail
  | LoginData string string
  | OtherJson

record response =
  status :: nat
  body :: body

record browser =
  localStorage :: storage
  reloads :: nat
  sent :: "request list"

datatype js_error = Error string | TypeError | FetchRejected | JsonRejected

definition API :: string where
  "API = ''/api''"

definition getToken :: "browser \<Rightarrow> string option" where
  "getToken w = localStorage w ''fs_token''"

definition setToken :: "string \<Rightarrow> browser \<Rightarrow> browser" where
  "setToken t w = w\<lparr>localStorage := (localStorage w)(''fs_token'' \<mapsto> t)\<rparr>"

definition clearAuth :: "browser \<Rightarrow> browser" where
  "clearAuth w =
     w\<lparr>localStorage := ((localStorage w)(''fs_token'' := None))(''fs_user'' := None)\<rparr>"

text \<open>
  \<^verbatim>\<open>getUser\<close> is \<^verbatim>\<open>JSON.parse\<close> of the stored text, and \<^verbatim>\<open>null\<close> when that throws. \<open>parse\<close>
  stands for \<^verbatim>\<open>JSON.parse\<close>, with \<open>None\<close> where it throws or gives \<^verbatim>\<open>null\<close>; of a missing key
  \<^verbatim>\<open>JSON.parse(null)\<close> is \<^verbatim>\<open>null\<close>.
\<close>

definition getUser :: "(string \<Rightarrow> 'u option) \<Rightarrow> browser \<Rightarrow> 'u option" where
  "getUser parse w = (case localStorage w ''fs_user'' of None \<Rightarrow> None | Some s \<Rightarrow> parse s)"

definition setUser :: "string \<Rightarrow> browser \<Rightarrow> browser" where
  "setUser u w = w\<lparr>localStorage := (localStorage w)(''fs_user'' \<mapsto> u)\<rparr>"

definition reload :: "browser \<Rightarrow> browser" where
  "reload w = w\<lparr>reloads := Suc (reloads w)\<rparr>"

text \<open>\<^verbatim>\<open>res.ok\<close>: the status is in the range 200 to 299.\<close>

definition ok :: "response \<Rightarrow> bool" where
  "ok r \<longleftrightarrow> 200 \<le> status r \<and> status r \<le> 299"

text \<open>
  A JavaScript string is truthy unless it is empty, and \<^verbatim>\<open>null\<close> is falsy:
  \<^verbatim>\<open>if (token)\<close> and \<^verbatim>\<open>err.detail || 'Request failed'\<close>.
\<close>

definition truthy :: "string option \<Rightarrow> bool" where
  "truthy v = (case v of None \<Rightarrow> False | Some s \<Rightarrow> s \<noteq> [])"

record opts =
  opt_method :: string
  opt_headers :: "(string \<times> string) list"
  opt_body :: "string option"

text \<open>
  \<^verbatim>\<open>headers = { ...opts.headers }\<close> followed by two assignments: a key that is already
  there keeps its place and takes the new value, a new key goes last. No caller of
  \<^verbatim>\<open>req\<close> passes a \<^verbatim>\<open>FormData\<close> body, so \<^verbatim>\<open>Content-Type\<close> is always set.
\<close>

fun set_header :: "string \<Rightarrow> string \<Rightarrow> (string \<times> string) list \<Rightarrow> (string \<times> string) list" where
  "set_header k v [] = [(k, v)]"
| "set_header k v ((k', v') # hs) =
     (if k' = k then (k, v) # hs else (k', v') # set_header k v hs)"

definition req_request :: "browser \<Rightarrow> string \<Rightarrow> opts \<Rightarrow> request" where
  "req_request w path opt =
     (let token = getToken w;
          headers = opt_headers opt;
          headers = (if truthy token then set_header ''Authorization'' (''Bearer '' @ the token) headers
                     else headers);
          headers = set_header ''Content-Type'' ''application/json'' headers
      in \<lparr>req_method = opt_method opt, req_url = API @ path, req_headers = headers,
          req_body = opt_body opt\<rparr>)"

text \<open>
  \<^verbatim>\<open>req(path, opts)\<close>. The server is a function from the request to the response, or to
  \<open>None\<close> when \<^verbatim>\<open>fetch\<close> rejects (no network). A \<^verbatim>\<open>throw\<close> is the result \<open>Inl\<close>. Of a response
  that is not ok: a body that is no JSON is taken as \<^verbatim>\<open>{ detail: 'Request failed' }\<close>, the body
  \<^verbatim>\<open>null\<close> makes \<^verbatim>\<open>err.detail\<close> throw a \<^verbatim>\<open>TypeError\<close>, and every other body gives
  \<^verbatim>\<open>new Error(err.detail || 'Request failed')\<close>.
\<close>

definition req ::
  "(request \<Rightarrow> response option) \<Rightarrow> string \<Rightarrow> opts \<Rightarrow> browser \<Rightarrow> browser \<times> (js_error + response)" where
  "req server path opt w =
     (let r = req_request w path opt;
          w1 = w\<lparr>sent := sent w @ [r]\<rparr>
      in case server r of
           None \<Rightarrow> (w1, Inl FetchRejected)
         | Some res \<Rightarrow>
             if status res = 401 then
               (reload (clearAuth w1), Inl (Error ''Unauthorized''))
             else if \<not> ok res then
               (case body res of
                  NullJson \<Rightarrow> (w1, Inl TypeError)
                | Detail (Truthy s) \<Rightarrow> (w1, Inl (Error s))
                | _ \<Rightarrow> (w1, Inl (Error ''Request failed'')))
             else (w1, Inr res))"

definition get_opts :: opts where
  "get_opts = \<lparr>opt_method = ''GET'', opt_headers = [], opt_body = None\<rparr>"

definition post_opts :: "string \<Rightarrow> opts" where
  "post_opts b = \<lparr>opt_method = ''POST'', opt_headers = [], opt_body = Some b\<rparr>"

text \<open>
  \<^verbatim>\<open>api.login\<close>: the body of the request is \<^verbatim>\<open>JSON.stringify({ username, password })\<close>,
  which the parameter \<open>stringify\<close> stands for. A response whose JSON is the login data
  \<^verbatim>\<open>{ access_token, user }\<close> stores both; \<^verbatim>\<open>res.json()\<close> of a body that is no JSON rejects
  (\<open>JsonRejected\<close>), and of the body \<^verbatim>\<open>null\<close> the read of \<^verbatim>\<open>data.access_token\<close> throws a
  \<^verbatim>\<open>TypeError\<close> before anything is stored. Any other JSON has no \<^verbatim>\<open>access_token\<close> and no
  \<^verbatim>\<open>user\<close>, and the two setters store the text of \<^verbatim>\<open>undefined\<close>.
\<close>

definition login ::
  "(request \<Rightarrow> response option) \<Rightarrow> (string \<Rightarrow> string \<Rightarrow> string) \<Rightarrow> string \<Rightarrow> string \<Rightarrow>
     browser \<Rightarrow> browser \<times> (js_error + body)" where
  "login server stringify username password w =
     (case req server ''/auth/login'' (post_opts (stringify username password)) w of
        (w1, Inl e) \<Rightarrow> (w1, Inl e)
      | (w1, Inr res) \<Rightarrow>
          (case body res of
             NoJson \<Rightarrow> (w1, Inl JsonRejected)
           | NullJson \<Rightarrow> (w1, Inl TypeError)
           | LoginData t u \<Rightarrow> (setUser u (setToken t w1), Inr (LoginData t u))
           | d \<Rightarrow> (setUser ''undefined'' (setToken ''undefined'' w1), Inr d)))"

subsection \<open>A cleared session\<close>

text \<open>
  What \<^verbatim>\<open>clearAuth(); window.location.reload()\<close> leaves of a browser \<open>w\<close>: no stored token,
  no stored user (the key \<^verbatim>\<open>fs_user\<close> is gone from the storage), every other key as it was,
  one more reload.
\<close>

definition session_cleared :: "browser \<Rightarrow> browser \<Rightarrow> bool" where
  "session_cleared w w' \<longleftrightarrow>
     getToken w' = None \<and> localStorage w' ''fs_user'' = None
     \<and> (\<forall>k. k \<noteq> ''fs_token'' \<longrightarrow> k \<noteq> ''fs_user'' \<longrightarrow> localStorage w' k = localStorage w k)
     \<and> reloads w' = Suc (reloads w)"

text \<open>
  A browser that holds a session and one more key, and a server that refuses every request
  with 401: the login of a wrong password removes the stored session and keeps the other key.
\<close>

definition stored_session :: browser where
  "stored_session =
     \<lparr>localStorage = [''fs_token'' \<mapsto> ''abc'', ''fs_user'' \<mapsto> ''{}'', ''view'' \<mapsto> ''grid''],
      reloads = 0, sent = []\<rparr>"

definition refusing :: "request \<Rightarrow> response option" where
  "refusing r = Some \<lparr>status = 401, body = Detail (Truthy ''Incorrect username or password'')\<rparr>"

definition pair_text :: "string \<Rightarrow> string \<Rightarrow> string" where
  "pair_text u p = u @ '':'' @ p"

section \<open>Media URLs and the bulk download (frontend/src/api.js)\<close>

text \<open>
  Strings are lists of bytes: a path is its UTF-8 text. \<^verbatim>\<open>encodeURIComponent\<close> keeps the
  unreserved characters (letters, digits and \<^verbatim>\<open>- _ . ! ~ * ' ( )\<close>) and writes every
  other byte as \<^verbatim>\<open>%XX\<close> with upper-case hexadecimal digits. A JavaScript string with a lone
  surrogate has no UTF-8 text and is no value of this type: of such a string
  \<^verbatim>\<open>encodeURIComponent\<close> throws \<^verbatim>\<open>URIError\<close>, and the four builders below build no URL.
\<close>

definition uri_unreserved :: "char \<Rightarrow> bool" where
  "uri_unreserved c \<longleftrightarrow>
     c \<in> set (''ABCDEFGHIJKLMNOPQRSTUVWXYZabcdefghijklmnopqrstuvwxyz0123456789-_.!~*()''
              @ [CHR 0x27])"

definition hex_digit :: "nat \<Rightarrow> char" where
  "hex_digit n = ''0123456789ABCDEF'' ! n"

definition encode_byte :: "char \<Rightarrow> string" where
  "encode_byte c =
     (if uri_unreserved c then [c]
      else [CHR ''%'', hex_digit (of_char c div 16), hex_digit (of_char c mod 16)])"

definition encodeURIComponent :: "string \<Rightarrow> string" where
  "encodeURIComponent s = concat (map encode_byte s)"

text \<open>
  A template literal writes \<^verbatim>\<open>null\<close> as the text \<^verbatim>\<open>null\<close>: \<^verbatim>\<open>${getToken()}\<close> with no
  stored token.
\<close>

definition template :: "string option \<Rightarrow> string" where
  "template v = (case v of None \<Rightarrow> ''null'' | Some s \<Rightarrow> s)"

definition previewUrl :: "browser \<Rightarrow> string \<Rightarrow> string" where
  "previewUrl w filePath =
     API @ ''/files/preview?path='' @ encodeURIComponent filePath
       @ ''&token='' @ template (getToken w)"

definition previewCompatUrl :: "browser \<Rightarrow> string \<Rightarrow> string" where
  "previewCompatUrl w filePath =
     API @ ''/files/preview?path='' @ encodeURIComponent filePath
       @ ''&compat=1&token='' @ template (getToken w)"

definition thumbnailUrl :: "browser \<Rightarrow> string \<Rightarrow> string" where
  "thumbnailUrl w filePath =
     API @ ''/files/thumbnail?path='' @ encodeURIComponent filePath
       @ ''&token='' @ template (getToken w)"






subsection \<open>Reading a URL\<close>



fun split_on :: "char \<Rightarrow> string \<Rightarrow> string list" where
  "split_on d [] = [[]]"
| "split_on d (c # cs) =
     (if c = d then [] # split_on d cs
      else (case split_on d cs of [] \<Rightarrow> [[c]] | p # ps \<Rightarrow> (c # p) # ps))"

definition hex_value :: "char \<Rightarrow> nat option" where
  "hex_value c =
     (if CHR ''0'' \<le> c \<and> c \<le> CHR ''9'' then Some (of_char c - 48)
      else if CHR ''A'' \<le> c \<and> c \<le> CHR ''F'' then Some (of_char c - 55)
      else if CHR ''a'' \<le> c \<and> c \<le> CHR ''f'' then Some (of_char c - 87)
      else None)"

definition plus_space :: "char \<Rightarrow> char" where
  "plus_space c = (if c = CHR ''+'' then CHR '' '' else c)"

fun percent_decode :: "string \<Rightarrow> string" where
  "percent_decode (c # h1 # h2 # r) =
     (if c = CHR ''%'' then
        (case (hex_value h1, hex_value h2) of
           (Some a, Some b) \<Rightarrow> char_of (16 * a + b) # percent_decode r
         | _ \<Rightarrow> c # percent_decode (h1 # h2 # r))
      else plus_space c # percent_decode (h1 # h2 # r))"
| "percent_decode (c # r) = plus_space c # percent_decode r"
| "percent_decode [] = []"



text \<open>
  The builders write the token into the URL as it is, not through \<^verbatim>\<open>encodeURIComponent\<close>. A
  token survives that when the reading above gives it back: it has no \<^verbatim>\<open>&\<close> and no \<^verbatim>\<open>#\<close>,
  and decoding leaves it alone (no \<^verbatim>\<open>+\<close>, no \<^verbatim>\<open>%XX\<close>).
\<close>

definition survives_query :: "string \<Rightarrow> bool" where
  "survives_query t \<longleftrightarrow> CHR ''&'' \<notin> set t \<and> CHR ''#'' \<notin> set t \<and> percent_decode t = t"

text \<open>
  The characters of a JSON Web Token, which the backend issues according to the README:
  the base64url alphabet and the dot.
\<close>

definition token_char :: "char \<Rightarrow> bool" where
  "token_char c \<longleftrightarrow>
     c \<in> set ''ABCDEFGHIJKLMNOPQRSTUVWXYZabcdefghijklmnopqrstuvwxyz0123456789-_.''"


section \<open>The video player (frontend/src/components/FilePreview.jsx)\<close>

text \<open>
  \<^verbatim>\<open>VideoPlayer\<close> is a React component. Its state is the four \<^verbatim>\<open>useState\<close> cells and the
  \<^verbatim>\<open>triedCompat\<close> ref; its prop is the file, of which only \<^verbatim>\<open>file.path\<close> is read here. The
  component renders one \<^verbatim>\<open><video key={src} src={src}>\<close>: when a render computes another
  \<^verbatim>\<open>src\<close>, React replaces the element, and the new element loads its URL. \<open>mounted\<close> is
  the \<^verbatim>\<open>src\<close> of the element in the page, \<open>net\<close> the requests made so far, oldest first,
  and \<open>probes\<close> the number of \<^verbatim>\<open>handleError\<close> calls that wait at
  \<^verbatim>\<open>await api.getVideoInfo(file.path)\<close>.
\<close>

datatype play_status = Loading | Playing | Transcoding | Failed

datatype src = PreviewUrl string | PreviewCompatUrl string

datatype net = Load src | GetVideoInfo string

record video_info =
  codec :: string
  needs_transcode :: bool
  ffmpeg_available :: bool

record player =
  file_path :: string
  vstatus :: play_status
  bufferPct :: nat
  useCompat :: bool
  errorMsg :: string
  triedCompat :: bool
  mounted :: src
  probes :: nat
  net :: "net list"

text \<open>
  \<^verbatim>\<open>const src = useCompat ? api.previewCompatUrl(file.path) : api.previewUrl(file.path)\<close>,
  computed by every render from the state and the prop of that render.
\<close>

definition render_src :: "player \<Rightarrow> src" where
  "render_src p = (if useCompat p then PreviewCompatUrl (file_path p) else PreviewUrl (file_path p))"

text \<open>The URL a \<open>src\<close> stands for, in a browser with its stored token.\<close>

definition src_url :: "browser \<Rightarrow> src \<Rightarrow> string" where
  "src_url w s = (case s of PreviewUrl p \<Rightarrow> previewUrl w p | PreviewCompatUrl p \<Rightarrow> previewCompatUrl w p)"

text \<open>The render after a change of state or prop, and React's commit of it.\<close>

definition commit :: "player \<Rightarrow> player" where
  "commit p =
     (if render_src p = mounted p then p
      else p\<lparr>mounted := render_src p, net := net p @ [Load (render_src p)]\<rparr>)"

text \<open>
  The first render: the initial values of the \<^verbatim>\<open>useState\<close> cells and of the ref. The effect
  on \<^verbatim>\<open>[file.path]\<close> runs after it and sets the same values again.
\<close>

definition mount :: "string \<Rightarrow> player" where
  "mount path =
     \<lparr>file_path = path, vstatus = Loading, bufferPct = 0, useCompat = False, errorMsg = [],
      triedCompat = False, mounted = PreviewUrl path, probes = 0, net = [Load (PreviewUrl path)]\<rparr>"

text \<open>
  What happens to a mounted player: the media events of its \<^verbatim>\<open><video>\<close> element
  (\<open>Progress\<close> carries the percentage when the element has buffered data and a duration),
  the element's \<^verbatim>\<open>error\<close> event, the completion of a pending probe (with the probe's
  answer, or \<open>None\<close> when \<^verbatim>\<open>getVideoInfo\<close> throws), and a new \<^verbatim>\<open>file\<close> prop from the parent:
  \<^verbatim>\<open>FilePreview\<close> renders \<^verbatim>\<open><VideoPlayer file={file} />\<close> with no key, and the dashboard renders
  \<^verbatim>\<open>FilePreview\<close> with no key, so the same player is kept when the user steps from one video
  to the next.
\<close>

datatype event =
  Progress "nat option"
  | CanPlay
  | PlayingEvent
  | Waiting
  | LoadedData
  | ErrorEvent
  | ProbeDone "video_info option"
  | FileProp string

text \<open>
  \<^verbatim>\<open>handleError\<close> up to its \<^verbatim>\<open>await\<close>: a second error gives up; the first one sets the ref
  and asks the server for the codec.
\<close>

definition handleError :: "player \<Rightarrow> player" where
  "handleError p =
     (if triedCompat p then
        p\<lparr>vstatus := Failed,
          errorMsg := ''Video could not be played. Try downloading it instead.''\<rparr>
      else
        p\<lparr>triedCompat := True, probes := Suc (probes p),
          net := net p @ [GetVideoInfo (file_path p)]\<rparr>)"

definition try_compat :: "player \<Rightarrow> player" where
  "try_compat p = p\<lparr>vstatus := Transcoding, bufferPct := 0, useCompat := True\<rparr>"

definition codec_message :: "string \<Rightarrow> string" where
  "codec_message c =
     ''Codec '' @ [CHR 0x22] @ c @ [CHR 0x22]
       @ '' not supported by browser. Install ffmpeg to enable transcoding.''"

text \<open>
  \<^verbatim>\<open>handleError\<close> after its \<^verbatim>\<open>await\<close>. The setters act on the state the component has when
  the probe completes.
\<close>

definition handleError_resume :: "video_info option \<Rightarrow> player \<Rightarrow> player" where
  "handleError_resume r p =
     (case r of
        Some info \<Rightarrow>
          if needs_transcode info \<and> ffmpeg_available info then try_compat p
          else if needs_transcode info \<and> \<not> ffmpeg_available info then
            p\<lparr>vstatus := Failed, errorMsg := codec_message (codec info)\<rparr>
          else try_compat p
      | None \<Rightarrow> try_compat p)"

text \<open>The effect on \<^verbatim>\<open>[file.path]\<close>: \<^verbatim>\<open>Reset when file changes\<close>.\<close>

definition reset :: "player \<Rightarrow> player" where
  "reset p =
     p\<lparr>triedCompat := False, useCompat := False, vstatus := Loading, bufferPct := 0,
       errorMsg := []\<rparr>"

text \<open>
  One step of the player. A new \<^verbatim>\<open>file\<close> prop is first rendered and committed with the
  state as it is, then the effect resets the state, which is rendered and committed again.
\<close>

fun step :: "player \<Rightarrow> event \<Rightarrow> player" where
  "step p (Progress None) = p"
| "step p (Progress (Some pct)) = commit (p\<lparr>bufferPct := pct\<rparr>)"
| "step p CanPlay = commit (p\<lparr>vstatus := Playing\<rparr>)"
| "step p PlayingEvent = commit (p\<lparr>vstatus := Playing\<rparr>)"
| "step p LoadedData = commit (p\<lparr>vstatus := Playing\<rparr>)"
| "step p Waiting = (if vstatus p \<noteq> Transcoding then commit (p\<lparr>vstatus := Loading\<rparr>) else p)"
| "step p ErrorEvent = commit (handleError p)"
| "step p (ProbeDone r) =
     (if probes p = 0 then p
      else commit (handleError_resume r (p\<lparr>probes := probes p - 1\<rparr>)))"
| "step p (FileProp path) =
     (if path = file_path p then p
      else commit (reset (commit (p\<lparr>file_path := path\<rparr>))))"

definition run :: "player \<Rightarrow> event list \<Rightarrow> player" where
  "run p evs = foldl step p evs"

text \<open>Two videos, and the answer of the probe for a video in HEVC with ffmpeg installed.\<close>

definition hevc_with_ffmpeg :: video_info where
  "hevc_with_ffmpeg = \<lparr>codec = ''hevc'', needs_transcode = True, ffmpeg_available = True\<rparr>"

definition hevc_without_ffmpeg :: video_info where
  "hevc_without_ffmpeg = \<lparr>codec = ''hevc'', needs_transcode = True, ffmpeg_available = False\<rparr>"

text \<open>The events that are neither an error, nor a probe's answer, nor a new file.\<close>

fun media_event :: "event \<Rightarrow> bool" where
  "media_event ErrorEvent = False"
| "media_event (ProbeDone r) = False"
| "media_event (FileProp path) = False"
| "media_event e = True"

fun file_event :: "event \<Rightarrow> bool" where
  "file_event (FileProp path) = True"
| "file_event e = False"

text \<open>
  What of a player decides the requests to come: everything but the status line, the
  buffer bar and the message.
\<close>

definition same_requests :: "player \<Rightarrow> player \<Rightarrow> bool" where
  "same_requests p q \<longleftrightarrow>
     file_path q = file_path p \<and> useCompat q = useCompat p \<and> triedCompat q = triedCompat p
     \<and> mounted q = mounted p \<and> probes q = probes p \<and> net q = net p"

text \<open>
  A player that has not met an error on its file: no compat, the ref not set, no probe
  pending, the plain preview URL in the page. \<^verbatim>\<open>mount\<close> gives such a player.
\<close>

definition fresh :: "player \<Rightarrow> bool" where
  "fresh p \<longleftrightarrow>
     \<not> useCompat p \<and> \<not> triedCompat p \<and> probes p = 0 \<and> mounted p = PreviewUrl (file_path p)"

section \<open>The listing: cards, rows and the dashboard (FileCard.jsx, Dashboard.jsx)\<close>

text \<open>
  The entries of a listing as the client reads them from the JSON of \<^verbatim>\<open>GET /files\<close>: both
  kinds have \<^verbatim>\<open>name\<close>, \<^verbatim>\<open>path\<close> and \<^verbatim>\<open>modified_at\<close>; a folder has \<^verbatim>\<open>item_count\<close>, a file has
  \<^verbatim>\<open>size\<close> (here \<open>size_bytes\<close>) and \<^verbatim>\<open>file_type\<close>, a string.
\<close>

record entry =
  name :: string
  path :: string
  modified_at :: string

record folder_entry = entry +
  item_count :: nat

record file_entry = entry +
  size_bytes :: nat
  file_type :: string

subsection \<open>The thumbnail area of a card and of a row\<close>

datatype icon =
  ImageIcon
  | FilmIcon
  | FileIcon
  | PlayIcon
  | PrototypeMethod string
  | PrototypeObject

text \<open>
  \<^verbatim>\<open>typeIcon[file.file_type] || typeIcon.other\<close>: the object has the three keys below, and
  as a plain object it also answers to the names it inherits from \<^verbatim>\<open>Object.prototype\<close>. What
  is found there is truthy and no icon: a method, which React leaves out of the page, or,
  under \<^verbatim>\<open>__proto__\<close>, the prototype object, which React refuses as a child. Every other
  type takes the icon of \<^verbatim>\<open>other\<close>.
\<close>

definition typeIcon :: "(string \<times> icon) list" where
  "typeIcon = [(''image'', ImageIcon), (''video'', FilmIcon), (''other'', FileIcon)]"

definition prototype_methods :: "string list" where
  "prototype_methods =
     [''constructor'', ''hasOwnProperty'', ''isPrototypeOf'', ''propertyIsEnumerable'',
      ''toLocaleString'', ''toString'', ''valueOf'', ''__defineGetter__'', ''__defineSetter__'',
      ''__lookupGetter__'', ''__lookupSetter__'']"

definition type_icon :: "string \<Rightarrow> icon" where
  "type_icon t =
     (case map_of typeIcon t of
        Some i \<Rightarrow> i
      | None \<Rightarrow>
          if t \<in> set prototype_methods then PrototypeMethod t
          else if t = ''__proto__'' then PrototypeObject
          else FileIcon)"

text \<open>\<^verbatim>\<open>file.name.split('.').pop()\<close>: what stands after the last dot, or the whole name.\<close>

definition extension :: "string \<Rightarrow> string" where
  "extension n = last (split_on (CHR ''.'') n)"

text \<open>
  What the thumbnail area shows: the \<^verbatim>\<open><img>\<close> of the thumbnail URL, the play badge of a
  video, or the icon of the type; in a row, the \<^verbatim>\<open><img>\<close>, the play icon or the file icon.
\<close>

datatype thumb =
  Img string string
  | PlayBadge string
  | IconBadge icon string

datatype row_thumb = RowImg string | RowIcon icon

text \<open>The two \<^verbatim>\<open>useState\<close> cells of a \<^verbatim>\<open>FileCard\<close> and of a \<^verbatim>\<open>FileRow\<close>.\<close>

record card =
  thumbErr :: bool
  menuOpen :: bool

definition new_card :: card where
  "new_card = \<lparr>thumbErr = False, menuOpen = False\<rparr>"

definition showThumb :: "file_entry \<Rightarrow> card \<Rightarrow> bool" where
  "showThumb f c \<longleftrightarrow> file_type f = ''image'' \<and> \<not> thumbErr c"

definition FileCard :: "browser \<Rightarrow> file_entry \<Rightarrow> card \<Rightarrow> thumb" where
  "FileCard w f c =
     (if showThumb f c then Img (thumbnailUrl w (path f)) (name f)
      else if file_type f = ''video'' then PlayBadge (extension (name f))
      else IconBadge (type_icon (file_type f)) (extension (name f)))"

definition FileRow :: "browser \<Rightarrow> file_entry \<Rightarrow> card \<Rightarrow> row_thumb" where
  "FileRow w f c =
     (if file_type f = ''image'' \<and> \<not> thumbErr c then RowImg (thumbnailUrl w (path f))
      else if file_type f = ''video'' then RowIcon PlayIcon
      else RowIcon FileIcon)"

text \<open>\<^verbatim>\<open>onError={() => setThumbErr(true)}\<close> of the \<^verbatim>\<open><img>\<close>.\<close>

definition onError :: "card \<Rightarrow> card" where
  "onError c = c\<lparr>thumbErr := True\<rparr>"

text \<open>
  The dashboard renders one card (or row) for each file, each with a state of its own.
  The thumbnail of the card at index \<open>i\<close> fails to load: its \<^verbatim>\<open><img>\<close>, if the card shows
  one, fires \<^verbatim>\<open>error\<close>.
\<close>

type_synonym cards = "(file_entry \<times> card) list"

definition thumbnail_failed :: "nat \<Rightarrow> cards \<Rightarrow> cards" where
  "thumbnail_failed i cs =
     (if i < length cs \<and> showThumb (fst (cs ! i)) (snd (cs ! i))
      then cs[i := (fst (cs ! i), onError (snd (cs ! i)))]
      else cs)"

subsection \<open>The dashboard\<close>

datatype view = Grid | ListView

record listing =
  res_folders :: "folder_entry list option"
  res_files :: "file_entry list option"

record dashboard =
  currentPath :: string
  search :: string
  fileType :: string
  sort_key :: string
  folders :: "folder_entry list"
  files :: "file_entry list"
  loading :: bool
  dview :: view
  toasts :: "string list"

text \<open>
  \<^verbatim>\<open>api.getFiles(params)\<close> sets a parameter of the query when its value is truthy; the
  dashboard passes its path, search text, type filter and sort key.
\<close>

definition getFiles_query :: "dashboard \<Rightarrow> (string \<times> string) list" where
  "getFiles_query d =
     filter (\<lambda>kv. snd kv \<noteq> [])
       [(''path'', currentPath d), (''search'', search d), (''file_type'', fileType d),
        (''sort'', sort_key d)]"

text \<open>
  \<^verbatim>\<open>loadFiles\<close> from the answer on: \<^verbatim>\<open>setFolders(data.folders || [])\<close>,
  \<^verbatim>\<open>setFiles(data.files || [])\<close>; a call that throws shows a toast and keeps the lists; in
  both cases \<^verbatim>\<open>finally\<close> ends the loading. \<open>None\<close> is the call that throws, and a field
  that is missing or \<^verbatim>\<open>null\<close> in the JSON is \<open>None\<close>.
\<close>

definition or_empty :: "'a list option \<Rightarrow> 'a list" where
  "or_empty v = (case v of None \<Rightarrow> [] | Some xs \<Rightarrow> xs)"

definition loadFiles :: "listing option \<Rightarrow> dashboard \<Rightarrow> dashboard" where
  "loadFiles answer d =
     (case answer of
        Some data \<Rightarrow>
          d\<lparr>folders := or_empty (res_folders data), files := or_empty (res_files data),
            loading := False\<rparr>
      | None \<Rightarrow> d\<lparr>toasts := toasts d @ [''Failed to load files''], loading := False\<rparr>)"

text \<open>
  The content of \<^verbatim>\<open><main>\<close>, top to bottom: the spinner while loading, the note of an empty
  folder, or the entries, in the grid with a heading over each of the two groups when both
  are there, in the list under the header line.
\<close>

datatype item =
  Spinner
  | EmptyNote
  | Heading string
  | ListHeader
  | FolderCard folder_entry
  | FileCardOf file_entry
  | FolderRow folder_entry
  | FileRowOf file_entry

definition render_main :: "dashboard \<Rightarrow> item list" where
  "render_main d =
     (if loading d then [Spinner]
      else if folders d = [] \<and> files d = [] then [EmptyNote]
      else if dview d = Grid then
        (if folders d \<noteq> []
         then (if files d \<noteq> [] then [Heading ''Folders''] else []) @ map FolderCard (folders d)
         else [])
        @ (if files d \<noteq> []
           then (if folders d \<noteq> [] then [Heading ''Files''] else []) @ map FileCardOf (files d)
           else [])
      else ListHeader # map FolderRow (folders d) @ map FileRowOf (files d))"

text \<open>The entries among the items, in the order of the page.\<close>

fun entries_of :: "item list \<Rightarrow> (folder_entry + file_entry) list" where
  "entries_of [] = []"
| "entries_of (FolderCard f # xs) = Inl f # entries_of xs"
| "entries_of (FolderRow f # xs) = Inl f # entries_of xs"
| "entries_of (FileCardOf f # xs) = Inr f # entries_of xs"
| "entries_of (FileRowOf f # xs) = Inr f # entries_of xs"
| "entries_of (x # xs) = entries_of xs"

text \<open>Two images of one folder, each in a new card.\<close>

definition photo_a :: file_entry where
  "photo_a = \<lparr>name = ''a.jpg'', path = ''/a.jpg'', modified_at = [], size_bytes = 10,
     file_type = ''image''\<rparr>"

definition photo_b :: file_entry where
  "photo_b = \<lparr>name = ''b.png'', path = ''/b.png'', modified_at = [], size_bytes = 20,
     file_type = ''image''\<rparr>"

definition two_cards :: cards where
  "two_cards = [(photo_a, new_card), (photo_b, new_card)]"

section \<open>Sizes as text (fmtSize, FileCard.jsx)\<close>

text \<open>
  \<^verbatim>\<open>fmtSize(b)\<close> works on JavaScript numbers, which are doubles. A byte count below \<open>2^53\<close>
  is a double exactly, \<^verbatim>\<open>Math.pow(1024, i)\<close> is a power of two, and so the quotient
  \<^verbatim>\<open>b / Math.pow(k, i)\<close> is exact; \<^verbatim>\<open>toFixed(1)\<close> rounds the exact value of the double to
  tenths, a tie upwards. These steps are modelled in exact arithmetic on \<open>nat\<close>. The one
  step that rounds is \<^verbatim>\<open>Math.floor(Math.log(b) / Math.log(k))\<close>: the index is a parameter of
  the model.
\<close>

definition units :: "string list" where
  "units = [''B'', ''KB'', ''MB'', ''GB'', ''TB'']"

text \<open>\<^verbatim>\<open>s[i]\<close> in a template literal: past the end of the array it is the text \<^verbatim>\<open>undefined\<close>.\<close>

definition unit_at :: "nat \<Rightarrow> string" where
  "unit_at i = (if i < length units then units ! i else ''undefined'')"

fun decimal :: "nat \<Rightarrow> string" where
  "decimal n =
     (if n < 10 then [''0123456789'' ! n] else decimal (n div 10) @ [''0123456789'' ! (n mod 10)])"

declare decimal.simps [simp del]

text \<open>\<^verbatim>\<open>(b / Math.pow(k, i)).toFixed(1)\<close>, as the number of tenths it prints.\<close>

definition tenths :: "nat \<Rightarrow> nat \<Rightarrow> nat" where
  "tenths b i = (20 * b + 1024 ^ i) div (2 * 1024 ^ i)"

definition toFixed1 :: "nat \<Rightarrow> string" where
  "toFixed1 t = decimal (t div 10) @ ''.'' @ decimal (t mod 10)"

text \<open>
  \<^verbatim>\<open>parseFloat\<close> of that text, written by the template literal: a number with one decimal
  digit prints without it when the digit is zero.
\<close>

definition number_text :: "nat \<Rightarrow> string" where
  "number_text t = (if t mod 10 = 0 then decimal (t div 10) else toFixed1 t)"

definition fmtSize_at :: "nat \<Rightarrow> nat \<Rightarrow> string" where
  "fmtSize_at i b = number_text (tenths b i) @ '' '' @ unit_at i"

text \<open>
  \<^verbatim>\<open>fmtSize\<close>: \<open>None\<close> is \<^verbatim>\<open>null\<close> or \<^verbatim>\<open>undefined\<close>; \<open>floor_log b\<close> is what
  \<^verbatim>\<open>Math.floor(Math.log(b) / Math.log(1024))\<close> evaluates to.
\<close>

definition fmtSize :: "(nat \<Rightarrow> nat) \<Rightarrow> nat option \<Rightarrow> string" where
  "fmtSize floor_log b =
     (case b of
        None \<Rightarrow> ''0 B''
      | Some n \<Rightarrow> if n = 0 then ''0 B'' else fmtSize_at (floor_log n) n)"

text \<open>The exact index: the largest \<open>i\<close> with \<open>1024 ^ i \<le> b\<close>.\<close>

fun exact_index :: "nat \<Rightarrow> nat" where
  "exact_index b = (if b < 1024 then 0 else Suc (exact_index (b div 1024)))"

declare exact_index.simps [simp del]

section \<open>The media server, from the specification\<close>

text \<open>
  The backend (\<^verbatim>\<open>backend/main.py\<close>: path resolution, listing, streaming, thumbnails,
  archives, authentication) is not among the source files; only its client is. Every
  definition of this section is modelled from the specification, sections 3, 4.2, 4.3,
  4.4, 4.6, 6 and 7, and from nothing else.
\<close>

text \<open>
  Modelled from the spec: the backend's errors are missing; this is the taxonomy of
  section 7. No error carries a path or bytes of a file.
\<close>

datatype api_error =
  Unauthorized
  | Forbidden
  | NotFound
  | StorageUnavailable
  | ThumbnailUnavailable
  | TranscodeUnavailable
  | ArchiveTruncated

text \<open>
  Modelled from the spec: the real filesystem under and around MediaRoot (section 3). A
  path is the list of its segments from the filesystem's root; a node is a directory, a
  file with its bytes, or a symbolic link to an absolute path.
\<close>

datatype node = Dir | File string | Link "string list"

text \<open>Modelled from the spec: the filesystem, as the list of its paths with their nodes.\<close>

type_synonym filesystem = "(string list \<times> node) list"

text \<open>
  Modelled from the spec: the backend's canonicalization is missing (4.2, "canonicalize
  (resolve \<^verbatim>\<open>.\<close>/\<^verbatim>\<open>..\<close>/symlinks)"). The segments are read left to right; an empty segment and \<^verbatim>\<open>.\<close> are skipped, \<^verbatim>\<open>..\<close> drops the last
  segment of what is resolved so far, a symbolic link is replaced by its target. The first
  argument bounds the number of links followed; a chain that is longer does not resolve.
\<close>

fun realpath :: "nat \<Rightarrow> filesystem \<Rightarrow> string list \<Rightarrow> string list \<Rightarrow> string list option" where
  "realpath n fs cur [] = Some cur"
| "realpath n fs cur (s # rest) =
     (if s = [] \<or> s = ''.'' then realpath n fs cur rest
      else if s = ''..'' then realpath n fs (butlast cur) rest
      else (case map_of fs (cur @ [s]) of
              Some (Link target) \<Rightarrow>
                (case n of 0 \<Rightarrow> None | Suc m \<Rightarrow> realpath m fs [] (target @ rest))
            | _ \<Rightarrow> realpath n fs (cur @ [s]) rest))"

text \<open>Modelled from the spec: the bound on the links followed, which the spec leaves open.\<close>

definition symlink_limit :: nat where
  "symlink_limit = 40"

text \<open>
  Modelled from the spec: the backend's path resolution is missing (4.2): "join MediaRoot
  with the client-supplied virtualPath, canonicalize".
\<close>

definition canonical :: "filesystem \<Rightarrow> string list \<Rightarrow> string \<Rightarrow> string list option" where
  "canonical fs root vpath = realpath symlink_limit fs [] (root @ split_on (CHR ''/'') vpath)"

text \<open>
  Modelled from the spec: the backend's containment check is missing (4.2): "verify the
  canonical path is still a descendant of MediaRoot; any violation (including resolving
  above the root) yields \<open>Forbidden\<close>/\<open>NotFound\<close>"; here a violation is \<open>Forbidden\<close> and a
  path that does not exist is \<open>NotFound\<close>.
\<close>

definition resolve :: "filesystem \<Rightarrow> string list \<Rightarrow> string \<Rightarrow> api_error + string list \<times> node" where
  "resolve fs root vpath =
     (case canonical fs root vpath of
        None \<Rightarrow> Inl Forbidden
      | Some p \<Rightarrow>
          if \<not> prefix root p then Inl Forbidden
          else (case map_of fs p of None \<Rightarrow> Inl NotFound | Some n \<Rightarrow> Inr (p, n)))"

text \<open>Modelled from the spec: the children of a directory, by name (4.2, item count).\<close>

definition children :: "filesystem \<Rightarrow> string list \<Rightarrow> (string \<times> node) list" where
  "children fs p = map (\<lambda>e. (last (fst e), snd e)) (filter (\<lambda>e. fst e \<noteq> [] \<and> butlast (fst e) = p) fs)"

text \<open>
  Modelled from the spec: the backend's listing is missing (4.2): it opens the one
  directory and returns its children; \<open>NotFound\<close> when the path is no directory.
\<close>

definition list_dir :: "filesystem \<Rightarrow> string list \<Rightarrow> string \<Rightarrow> api_error + (string \<times> node) list" where
  "list_dir fs root vpath =
     (case resolve fs root vpath of
        Inl e \<Rightarrow> Inl e
      | Inr (p, Dir) \<Rightarrow> Inr (children fs p)
      | Inr (p, n) \<Rightarrow> Inl NotFound)"

text \<open>Modelled from the spec: the size of a listed file (section 3, DirectoryStats).\<close>

fun file_length :: "string \<times> node \<Rightarrow> nat" where
  "file_length (n, File d) = length d"
| "file_length (n, other) = 0"

text \<open>Modelled from the spec: whether a listed child is a file (section 3).\<close>

fun is_file :: "string \<times> node \<Rightarrow> bool" where
  "is_file (n, File d) = True"
| "is_file (n, other) = False"

text \<open>
  Modelled from the spec: the backend's statistics are missing (4.2, section 3): the number
  of files of the directory and their total size.
\<close>

definition stats :: "filesystem \<Rightarrow> string list \<Rightarrow> string \<Rightarrow> api_error + nat \<times> nat" where
  "stats fs root vpath =
     (case list_dir fs root vpath of
        Inl e \<Rightarrow> Inl e
      | Inr cs \<Rightarrow> Inr (length (filter is_file cs), sum_list (map file_length cs)))"

text \<open>
  Modelled from the spec: the backend's streaming responses are missing (4.4): the status,
  \<^verbatim>\<open>Content-Range\<close>, \<^verbatim>\<open>Content-Length\<close> and the body.
\<close>

record http_response =
  code :: nat
  content_range :: "string option"
  content_length :: nat
  content :: string

text \<open>Modelled from the spec: a decimal digit of a Range header (4.4).\<close>

definition is_digit :: "char \<Rightarrow> bool" where
  "is_digit c \<longleftrightarrow> CHR ''0'' \<le> c \<and> c \<le> CHR ''9''"

text \<open>Modelled from the spec: the number a run of digits of a Range header writes (4.4).\<close>

definition parse_nat :: "string \<Rightarrow> nat option" where
  "parse_nat s =
     (if s \<noteq> [] \<and> list_all is_digit s
      then Some (foldl (\<lambda>n c. 10 * n + (of_char c - 48)) 0 s) else None)"

text \<open>
  Modelled from the spec: the backend's reading of the Range header is missing (4.4):
  \<^verbatim>\<open>bytes=start-end\<close>, the end optional.
\<close>

definition parse_range :: "string \<Rightarrow> (nat \<times> nat option) option" where
  "parse_range h =
     (if take 6 h \<noteq> ''bytes='' then None
      else (let spec = drop 6 h;
                start_digits = takeWhile (\<lambda>c. c \<noteq> CHR ''-'') spec;
                dash_end = dropWhile (\<lambda>c. c \<noteq> CHR ''-'') spec
            in case (parse_nat start_digits, dash_end) of
                 (Some a, dash # end_digits) \<Rightarrow>
                   (if end_digits = [] then Some (a, None)
                    else (case parse_nat end_digits of
                            Some b \<Rightarrow> Some (a, Some b)
                          | None \<Rightarrow> None))
               | _ \<Rightarrow> None))"

text \<open>
  Modelled from the spec: FullContent (4.4), "no Range header yields the full file with
  \<^verbatim>\<open>Content-Length\<close>".
\<close>

definition full_content :: "string \<Rightarrow> http_response" where
  "full_content d = \<lparr>code = 200, content_range = None, content_length = length d, content = d\<rparr>"

text \<open>
  Modelled from the spec: PartialContent (4.4), "a \<^verbatim>\<open>206 Partial Content\<close> response with
  \<^verbatim>\<open>Content-Range\<close> and the exact requested byte span": the bytes \<open>a\<close> to \<open>b\<close> of the file.
\<close>

definition partial_content :: "string \<Rightarrow> nat \<Rightarrow> nat \<Rightarrow> http_response" where
  "partial_content d a b =
     \<lparr>code = 206,
      content_range = Some (''bytes '' @ decimal a @ ''-'' @ decimal b @ ''/'' @ decimal (length d)),
      content_length = b + 1 - a,
      content = take (b + 1 - a) (drop a d)\<rparr>"

text \<open>
  Modelled from the spec: the range semantics of 4.4, the span "clamped to file size". The
  specification says nothing of a header that is not of the form above, or whose span is
  empty or starts past the end of the file: here such a header is ignored.
\<close>

definition serve_range :: "string \<Rightarrow> string option \<Rightarrow> http_response" where
  "serve_range d header =
     (case header of
        None \<Rightarrow> full_content d
      | Some h \<Rightarrow>
          (case parse_range h of
             None \<Rightarrow> full_content d
           | Some (a, e) \<Rightarrow>
               (let b = (case e of None \<Rightarrow> length d - 1 | Some b \<Rightarrow> min b (length d - 1))
                in if length d \<le> a \<or> b < a then full_content d
                   else partial_content d a b)))"

text \<open>
  Modelled from the spec: the backend's \<^verbatim>\<open>streamPreview\<close> is missing (4.4): the same
  containment check as the listing, then the range semantics.
\<close>

definition streamPreview ::
  "filesystem \<Rightarrow> string list \<Rightarrow> string \<Rightarrow> string option \<Rightarrow> api_error + http_response" where
  "streamPreview fs root vpath header =
     (case resolve fs root vpath of
        Inl e \<Rightarrow> Inl e
      | Inr (p, File d) \<Rightarrow> Inr (serve_range d header)
      | Inr (p, n) \<Rightarrow> Inl NotFound)"

text \<open>
  Modelled from the spec: the backend's \<^verbatim>\<open>streamDownload\<close> is missing (4.4): the whole file,
  as an attachment under its own name.
\<close>

definition streamDownload ::
  "filesystem \<Rightarrow> string list \<Rightarrow> string \<Rightarrow> api_error + string \<times> http_response" where
  "streamDownload fs root vpath =
     (case resolve fs root vpath of
        Inl e \<Rightarrow> Inl e
      | Inr (p, File d) \<Rightarrow> Inr (last p, full_content d)
      | Inr (p, n) \<Rightarrow> Inl NotFound)"

text \<open>
  Modelled from the spec: the backend's \<^verbatim>\<open>getThumbnail\<close> is missing (4.3): what the generator
  (a parameter) makes of the file, or \<open>ThumbnailUnavailable\<close>. The cache is left out.
\<close>

definition getThumbnail ::
  "(string \<Rightarrow> string option) \<Rightarrow> filesystem \<Rightarrow> string list \<Rightarrow> string \<Rightarrow> api_error + string" where
  "getThumbnail generate fs root vpath =
     (case resolve fs root vpath of
        Inl e \<Rightarrow> Inl e
      | Inr (p, File d) \<Rightarrow>
          (case generate d of None \<Rightarrow> Inl ThumbnailUnavailable | Some t \<Rightarrow> Inr t)
      | Inr (p, n) \<Rightarrow> Inl NotFound)"

text \<open>
  Modelled from the spec: the backend's \<^verbatim>\<open>streamZip\<close> is missing (4.6): the archive holds
  every selected file under its name, and one path that does not resolve to a file fails
  the batch (of the two policies the specification leaves open, this one).
\<close>

fun streamZip ::
  "filesystem \<Rightarrow> string list \<Rightarrow> string list \<Rightarrow> api_error + (string \<times> string) list" where
  "streamZip fs root [] = Inr []"
| "streamZip fs root (v # vs) =
     (case resolve fs root v of
        Inl e \<Rightarrow> Inl e
      | Inr (p, File d) \<Rightarrow>
          (case streamZip fs root vs of Inl e \<Rightarrow> Inl e | Inr es \<Rightarrow> Inr ((last p, d) # es))
      | Inr (p, n) \<Rightarrow> Inl NotFound)"







text \<open>
  Modelled from the spec: a virtual path escapes when it does not resolve, or resolves
  outside MediaRoot (section 8, "resolving outside MediaRoot").
\<close>

definition escapes :: "filesystem \<Rightarrow> string list \<Rightarrow> string \<Rightarrow> bool" where
  "escapes fs root vpath =
     (case canonical fs root vpath of None \<Rightarrow> True | Some p \<Rightarrow> \<not> prefix root p)"

text \<open>
  A media root \<^verbatim>\<open>/srv/media\<close> with a picture and a link that leads out of it, and a file
  outside.
\<close>

definition media_root :: "string list" where
  "media_root = [''srv'', ''media'']"

definition disk :: filesystem where
  "disk =
     [([], Dir), ([''srv''], Dir), ([''srv'', ''media''], Dir),
      ([''srv'', ''media'', ''a.jpg''], File ''0123456789''),
      ([''srv'', ''media'', ''out''], Link [''etc'']),
      ([''etc''], Dir), ([''etc'', ''passwd''], File ''root:x:0:0'')]"

chapter \<open>Properties\<close>

section \<open>Unauthorized responses\<close>

lemma session_cleared_reload_clearAuth:
  "session_cleared w (reload (clearAuth (w\<lparr>sent := rs\<rparr>)))"
  by (simp add: session_cleared_def reload_def clearAuth_def getToken_def)

lemma session_cleared_getUser: "session_cleared w w' \<Longrightarrow> getUser parse w' = None"
  by (simp add: session_cleared_def getUser_def)

lemma req_401:
  assumes "server (req_request w endpoint opt) = Some res" and "status res = 401"
  shows "req server endpoint opt w =
    (reload (clearAuth (w\<lparr>sent := sent w @ [req_request w endpoint opt]\<rparr>)),
     Inl (Error ''Unauthorized''))"
  using assms by (simp add: req_def Let_def)

text \<open>
  C9. Whatever call goes through \<^verbatim>\<open>req\<close>, and \<^verbatim>\<open>login\<close> with it: when the server answers
  401, the stored token and the stored user are removed, every other key of the storage is
  left as it was, the page is reloaded once, and only then the caller gets the error
  \<^verbatim>\<open>Unauthorized\<close>. \<^verbatim>\<open>login\<close> hands the same error on and stores nothing after it, so a
  login refused with 401 ends the session that was stored before.
\<close>

theorem req_401_clears_session:
  assumes "server (req_request w endpoint opt) = Some res" and "status res = 401"
  shows "\<exists>w'. req server endpoint opt w = (w', Inl (Error ''Unauthorized''))
    \<and> session_cleared w w'
    \<and> (endpoint = ''/auth/login'' \<and> opt = post_opts (stringify username password) \<longrightarrow>
         login server stringify username password w = (w', Inl (Error ''Unauthorized'')))"
proof -
  let ?w' = "reload (clearAuth (w\<lparr>sent := sent w @ [req_request w endpoint opt]\<rparr>))"
  have r: "req server endpoint opt w = (?w', Inl (Error ''Unauthorized''))"
    using assms by (rule req_401)
  have c: "session_cleared w ?w'"
    by (rule session_cleared_reload_clearAuth)
  have l: "login server stringify username password w = (?w', Inl (Error ''Unauthorized''))"
    if "endpoint = ''/auth/login''" and "opt = post_opts (stringify username password)"
    using r that by (simp add: login_def)
  from r c l show ?thesis by blast
qed

theorem req_401_clears_session_witness:
  "snd (login refusing pair_text ''amit'' ''wrong'' stored_session) = Inl (Error ''Unauthorized'')
   \<and> getToken (fst (login refusing pair_text ''amit'' ''wrong'' stored_session)) = None
   \<and> getUser Some (fst (login refusing pair_text ''amit'' ''wrong'' stored_session)) = None
   \<and> localStorage (fst (login refusing pair_text ''amit'' ''wrong'' stored_session)) ''view''
        = Some ''grid''
   \<and> getToken stored_session = Some ''abc''"
proof -
  have s: "refusing (req_request stored_session ''/auth/login''
             (post_opts (pair_text ''amit'' ''wrong'')))
           = Some \<lparr>status = 401, body = Detail (Truthy ''Incorrect username or password'')\<rparr>"
    by (simp add: refusing_def)
  have t: "status \<lparr>status = 401, body = Detail (Truthy ''Incorrect username or password'')\<rparr> = 401"
    by simp
  obtain w' where
    l: "login refusing pair_text ''amit'' ''wrong'' stored_session = (w', Inl (Error ''Unauthorized''))"
    and c: "session_cleared stored_session w'"
    using req_401_clears_session [where server = refusing and w = stored_session
        and endpoint = "''/auth/login''" and opt = "post_opts (pair_text ''amit'' ''wrong'')"
        and stringify = pair_text and username = "''amit''" and password = "''wrong''", OF s t]
    by blast
  have v: "localStorage w' ''view'' = localStorage stored_session ''view''"
    using c by (simp add: session_cleared_def)
  have g: "localStorage stored_session ''view'' = Some ''grid''"
    and a: "getToken stored_session = Some ''abc''"
    by (simp_all add: stored_session_def getToken_def)
  from l c v g a show ?thesis
    by (simp add: session_cleared_def getUser_def)
qed

section \<open>Media URLs carry the token\<close>


lemma percent_decode_plain:
  "c \<noteq> CHR ''%'' \<Longrightarrow> percent_decode (c # r) = plus_space c # percent_decode r"
  by (cases r rule: percent_decode.cases) (auto split: list.splits)












lemma token_char_plain:
  "token_char c \<Longrightarrow> c \<notin> {CHR ''&'', CHR ''='', CHR ''?'', CHR ''#'', CHR ''%'', CHR ''+''}"
  by (auto simp: token_char_def)

lemma percent_decode_id:
  "\<forall>c\<in>set t. c \<noteq> CHR ''%'' \<and> c \<noteq> CHR ''+'' \<Longrightarrow> percent_decode t = t"
  by (induction t) (simp_all add: percent_decode_plain plus_space_def del: percent_decode.simps(1,2))







text \<open>Every JSON Web Token survives the query, and so does the text \<^verbatim>\<open>null\<close>.\<close>

lemma token_chars_survive_query:
  assumes "\<forall>c\<in>set t. token_char c"
  shows "survives_query t"
proof -
  have "percent_decode t = t"
    using assms token_char_plain by (intro percent_decode_id) auto
  moreover have "CHR ''&'' \<notin> set t" "CHR ''#'' \<notin> set t"
    using assms token_char_plain by auto
  ultimately show ?thesis
    by (simp add: survives_query_def)
qed























section \<open>The video player\<close>

lemma commit_committed: "mounted p = render_src p \<Longrightarrow> commit p = p"
  by (simp add: commit_def)

lemma mounted_commit: "mounted (commit p) = render_src (commit p)"
  by (simp add: commit_def render_src_def)

lemma step_committed: "mounted p = render_src p \<Longrightarrow> mounted (step p e) = render_src (step p e)"
  by (cases "(p, e)" rule: step.cases) (simp_all add: mounted_commit)

lemma run_committed: "mounted p = render_src p \<Longrightarrow> mounted (run p evs) = render_src (run p evs)"
  unfolding run_def by (induction evs arbitrary: p) (simp_all add: step_committed)

lemma step_media:
  assumes "media_event e" and "mounted p = render_src p"
  shows "same_requests p (step p e)"
  using assms
  by (cases "(p, e)" rule: step.cases)
     (simp_all add: same_requests_def commit_def render_src_def)

lemma same_requests_trans: "same_requests p q \<Longrightarrow> same_requests q r \<Longrightarrow> same_requests p r"
  by (simp add: same_requests_def)

lemma same_requests_committed:
  "same_requests p q \<Longrightarrow> mounted p = render_src p \<Longrightarrow> mounted q = render_src q"
  by (simp add: same_requests_def render_src_def)

lemma run_media:
  assumes "\<forall>e\<in>set evs. media_event e" and "mounted p = render_src p"
  shows "same_requests p (run p evs)"
  using assms
proof (induction evs arbitrary: p)
  case Nil
  then show ?case by (simp add: run_def same_requests_def)
next
  case (Cons e evs)
  have s: "same_requests p (step p e)"
    using Cons.prems by (simp add: step_media)
  then have "mounted (step p e) = render_src (step p e)"
    using Cons.prems(2) by (rule same_requests_committed)
  then have "same_requests (step p e) (run (step p e) evs)"
    using Cons.prems(1) by (intro Cons.IH) simp_all
  with s show ?case
    unfolding run_def by (auto intro: same_requests_trans)
qed

lemma step_given_up:
  assumes "\<not> file_event e" and "triedCompat p" and "probes p = 0" and "mounted p = render_src p"
  shows "same_requests p (step p e)"
  using assms
  by (cases "(p, e)" rule: step.cases)
     (simp_all add: same_requests_def commit_def render_src_def handleError_def)

lemma run_given_up:
  assumes "\<forall>e\<in>set evs. \<not> file_event e" and "triedCompat p" and "probes p = 0"
    and "mounted p = render_src p"
  shows "same_requests p (run p evs)"
  using assms
proof (induction evs arbitrary: p)
  case Nil
  then show ?case by (simp add: run_def same_requests_def)
next
  case (Cons e evs)
  have s: "same_requests p (step p e)"
    using Cons.prems by (simp add: step_given_up)
  then have "same_requests (step p e) (run (step p e) evs)"
    using Cons.prems by (intro Cons.IH) (simp_all add: same_requests_def render_src_def)
  with s show ?case
    unfolding run_def by (auto intro: same_requests_trans)
qed

lemma run_append: "run p (xs @ ys) = run (run p xs) ys"
  by (simp add: run_def)

lemma probe_refused_step:
  assumes "0 < probes p" and "mounted p = render_src p"
    and "needs_transcode info" and "\<not> ffmpeg_available info"
  shows "step p (ProbeDone (Some info))
     = p\<lparr>probes := probes p - 1, vstatus := Failed, errorMsg := codec_message (codec info)\<rparr>"
  using assms by (simp add: handleError_resume_def commit_def render_src_def)

lemma fresh_mount: "fresh (mount f)"
  by (simp add: fresh_def mount_def)

lemma fresh_committed: "fresh p \<Longrightarrow> mounted p = render_src p"
  by (simp add: fresh_def render_src_def)

text \<open>
  A player that has not met an error on its file (a newly mounted one is such) gets media
  events, then the error of the native playback, and the probe answers that the video
  needs transcoding and that ffmpeg is not available. Then the player is in the state
  \<^verbatim>\<open>error\<close> with the message that names the codec; and whatever events follow while the file
  stays, the only request the error has caused is the probe: the compat URL is never
  requested and the element keeps the plain preview URL.
\<close>

lemma probe_without_transcoder:
  assumes "needs_transcode info" and "\<not> ffmpeg_available info" and "fresh p"
    and "\<forall>e\<in>set before. media_event e" and "\<forall>e\<in>set after. \<not> file_event e"
  shows "vstatus (run p (before @ [ErrorEvent, ProbeDone (Some info)])) = Failed
    \<and> errorMsg (run p (before @ [ErrorEvent, ProbeDone (Some info)])) = codec_message (codec info)
    \<and> net (run p (before @ [ErrorEvent, ProbeDone (Some info)] @ after))
        = net p @ [GetVideoInfo (file_path p)]
    \<and> mounted (run p (before @ [ErrorEvent, ProbeDone (Some info)] @ after))
        = PreviewUrl (file_path p)
    \<and> \<not> useCompat (run p (before @ [ErrorEvent, ProbeDone (Some info)] @ after))"
proof -
  let ?p = "run p before"
  let ?q = "run ?p [ErrorEvent, ProbeDone (Some info)]"
  have b: "same_requests p ?p"
    using assms(4) fresh_committed [OF assms(3)] by (rule run_media)
  then have p: "file_path ?p = file_path p" "\<not> useCompat ?p" "\<not> triedCompat ?p"
      "mounted ?p = PreviewUrl (file_path p)" "probes ?p = 0" "net ?p = net p"
    using assms(3) by (simp_all add: same_requests_def fresh_def)
  have q: "?q = ?p\<lparr>triedCompat := True, net := net p @ [GetVideoInfo (file_path p)],
      vstatus := Failed, errorMsg := codec_message (codec info)\<rparr>"
    using p assms(1,2)
    by (simp add: run_def handleError_def handleError_resume_def commit_def render_src_def)
  have "same_requests ?q (run ?q after)"
    using assms(5) by (rule run_given_up) (simp_all add: q p render_src_def)
  then have a: "net (run ?q after) = net p @ [GetVideoInfo (file_path p)]"
      "mounted (run ?q after) = PreviewUrl (file_path p)" "\<not> useCompat (run ?q after)"
    by (simp_all add: same_requests_def q p)
  have 1: "run p (before @ [ErrorEvent, ProbeDone (Some info)]) = ?q"
    by (simp only: run_append)
  have 2: "run p (before @ [ErrorEvent, ProbeDone (Some info)] @ after) = run ?q after"
    by (simp only: run_append)
  show ?thesis
    unfolding 1 2 using a by (simp add: q)
qed

lemma probe_without_transcoder_example:
  "needs_transcode hevc_without_ffmpeg \<and> \<not> ffmpeg_available hevc_without_ffmpeg
   \<and> errorMsg (run (mount ''/a.mp4'')
        ([Progress (Some 3), Waiting] @ [ErrorEvent, ProbeDone (Some hevc_without_ffmpeg)]))
       = ''Codec '' @ [CHR 0x22] @ ''hevc'' @ [CHR 0x22]
           @ '' not supported by browser. Install ffmpeg to enable transcoding.''
   \<and> net (run (mount ''/a.mp4'')
        ([Progress (Some 3), Waiting] @ [ErrorEvent, ProbeDone (Some hevc_without_ffmpeg)]
           @ [ErrorEvent, CanPlay]))
       = [Load (PreviewUrl ''/a.mp4''), GetVideoInfo ''/a.mp4'']"
proof -
  have h: "needs_transcode hevc_without_ffmpeg" "\<not> ffmpeg_available hevc_without_ffmpeg"
    by (simp_all add: hevc_without_ffmpeg_def)
  have b: "\<forall>e\<in>set [Progress (Some 3), Waiting]. media_event e"
    and a: "\<forall>e\<in>set [ErrorEvent, CanPlay]. \<not> file_event e"
    by simp_all
  have c: "codec hevc_without_ffmpeg = ''hevc''"
    by (simp add: hevc_without_ffmpeg_def)
  have n: "net (mount ''/a.mp4'') = [Load (PreviewUrl ''/a.mp4'')]"
    and f: "file_path (mount ''/a.mp4'') = ''/a.mp4''"
    by (simp_all add: mount_def)
  from probe_without_transcoder [OF h fresh_mount b a, of "''/a.mp4''"] h c n f
  show ?thesis by (simp add: codec_message_def)
qed

subsection \<open>When the probe and the compat stream are requested\<close>

text \<open>
  As long as the element reports no error, a player that starts fresh stays fresh and
  requests plain preview URLs only, whatever else happens (new files included): no other
  handler than \<^verbatim>\<open>onError\<close> starts a probe or turns compat on. And once the ref is set, an
  error only gives up.
\<close>

lemma fresh_step:
  assumes "fresh p" and "e \<noteq> ErrorEvent"
  shows "fresh (step p e) \<and> (\<exists>paths. net (step p e) = net p @ map (\<lambda>q. Load (PreviewUrl q)) paths)"
proof (cases e)
  case (FileProp fp)
  have "fresh (step p (FileProp fp))"
    using assms(1) by (simp add: fresh_def commit_def render_src_def reset_def)
  moreover have "net (step p (FileProp fp))
      = net p @ map (\<lambda>q. Load (PreviewUrl q)) (if fp = file_path p then [] else [fp])"
    using assms(1) by (simp add: fresh_def commit_def render_src_def reset_def)
  ultimately show ?thesis
    unfolding FileProp by blast
next
  case (ProbeDone r)
  with assms(1) have "step p e = p" by (simp add: fresh_def)
  with assms(1) show ?thesis by simp
next
  case ErrorEvent
  with assms(2) show ?thesis by simp
next
  case (Progress x)
  then have "same_requests p (step p e)"
    using fresh_committed [OF assms(1)] by (intro step_media) simp_all
  then show ?thesis
    using assms(1) by (simp add: same_requests_def fresh_def)
next
  case CanPlay
  then have "same_requests p (step p e)"
    using fresh_committed [OF assms(1)] by (intro step_media) simp_all
  then show ?thesis
    using assms(1) by (simp add: same_requests_def fresh_def)
next
  case PlayingEvent
  then have "same_requests p (step p e)"
    using fresh_committed [OF assms(1)] by (intro step_media) simp_all
  then show ?thesis
    using assms(1) by (simp add: same_requests_def fresh_def)
next
  case Waiting
  then have "same_requests p (step p e)"
    using fresh_committed [OF assms(1)] by (intro step_media) simp_all
  then show ?thesis
    using assms(1) by (simp add: same_requests_def fresh_def)
next
  case LoadedData
  then have "same_requests p (step p e)"
    using fresh_committed [OF assms(1)] by (intro step_media) simp_all
  then show ?thesis
    using assms(1) by (simp add: same_requests_def fresh_def)
qed

lemma lazy_until_error:
  assumes "fresh p" and "ErrorEvent \<notin> set evs"
  shows "fresh (run p evs) \<and> (\<exists>paths. net (run p evs) = net p @ map (\<lambda>q. Load (PreviewUrl q)) paths)"
  using assms
proof (induction evs arbitrary: p)
  case Nil
  then show ?case by (simp add: run_def)
next
  case (Cons e evs)
  from Cons.prems have e: "e \<noteq> ErrorEvent" by auto
  from fresh_step [OF Cons.prems(1) e] obtain ps where
    f: "fresh (step p e)" and n: "net (step p e) = net p @ map (\<lambda>q. Load (PreviewUrl q)) ps"
    by blast
  from Cons.IH [OF f] Cons.prems(2) obtain qs where
    g: "fresh (run (step p e) evs)"
    and m: "net (run (step p e) evs) = net (step p e) @ map (\<lambda>q. Load (PreviewUrl q)) qs"
    by auto
  have "net (run p (e # evs)) = net p @ map (\<lambda>q. Load (PreviewUrl q)) (ps @ qs)"
    using n m by (simp add: run_def)
  moreover have "fresh (run p (e # evs))"
    using g by (simp add: run_def)
  ultimately show ?case by blast
qed

lemma second_error_gives_up:
  assumes "triedCompat p" and "mounted p = render_src p"
  shows "step p ErrorEvent
    = p\<lparr>vstatus := Failed, errorMsg := ''Video could not be played. Try downloading it instead.''\<rparr>"
  using assms by (simp add: handleError_def commit_def render_src_def)

text \<open>
  C4. The probe and the compat stream of a video are to be requested only after a native
  playback of that video has reported an error. The first video of a player obeys this
  (\<open>lazy_until_error\<close>); the next one does not when the one before it played through
  compat. The player shows \<^verbatim>\<open>/a.mp4\<close>, the native playback fails, the probe answers that
  transcoding is needed and available, the player turns to the compat URL; then the parent
  passes \<^verbatim>\<open>/b.mp4\<close>. The render for the new file still has \<^verbatim>\<open>useCompat\<close> true, since the
  reset runs in an effect after the commit, and the new \<^verbatim>\<open><video>\<close> element is created with
  the compat URL of \<^verbatim>\<open>/b.mp4\<close>: the transcoded stream of \<^verbatim>\<open>/b.mp4\<close> is requested first, the
  plain URL second, and no playback of \<^verbatim>\<open>/b.mp4\<close> has failed.
\<close>

theorem next_video_loads_compat_first:
  "net (run (mount ''/a.mp4'') [ErrorEvent, ProbeDone (Some hevc_with_ffmpeg), FileProp ''/b.mp4''])
     = [Load (PreviewUrl ''/a.mp4''), GetVideoInfo ''/a.mp4'', Load (PreviewCompatUrl ''/a.mp4''),
        Load (PreviewCompatUrl ''/b.mp4''), Load (PreviewUrl ''/b.mp4'')]"
  by (simp add: run_def mount_def handleError_def handleError_resume_def try_compat_def reset_def
      commit_def render_src_def hevc_with_ffmpeg_def)

text \<open>
  The same happens when the file changes while a probe is pending: \<^verbatim>\<open>handleError\<close> resumes
  on the new file, whose native playback has reported nothing, and turns it to compat; the
  ref has been reset by then, so a later error of the compat stream probes again instead of
  giving up.
\<close>

lemma pending_probe_switches_next_video:
  "net (run (mount ''/a.mp4'') [ErrorEvent, FileProp ''/b.mp4'', ProbeDone (Some hevc_with_ffmpeg)])
     = [Load (PreviewUrl ''/a.mp4''), GetVideoInfo ''/a.mp4'', Load (PreviewUrl ''/b.mp4''),
        Load (PreviewCompatUrl ''/b.mp4'')]
   \<and> \<not> triedCompat (run (mount ''/a.mp4'')
         [ErrorEvent, FileProp ''/b.mp4'', ProbeDone (Some hevc_with_ffmpeg)])"
  by (simp add: run_def mount_def handleError_def handleError_resume_def try_compat_def reset_def
      commit_def render_src_def hevc_with_ffmpeg_def)

text \<open>
  C5. A video whose probe answers that transcoding is needed and that ffmpeg is not
  available is to end in the state \<^verbatim>\<open>error\<close> with the codec named, with no request for its
  compat stream and with its source never turned to the compat URL. The player does so
  when nothing of an earlier file is left in it (\<open>probe_without_transcoder\<close>); it does not
  when the probe of an earlier file is still pending. The player shows \<^verbatim>\<open>/a.mp4\<close>, whose
  playback fails and whose probe is sent; the parent passes \<^verbatim>\<open>/b.mp4\<close>; its playback fails
  too and its probe is sent; the probe of \<^verbatim>\<open>/a.mp4\<close> throws, and \<^verbatim>\<open>handleError\<close> resumes with
  \<^verbatim>\<open>setUseCompat(true)\<close> on the player that now shows \<^verbatim>\<open>/b.mp4\<close>; then the probe of
  \<^verbatim>\<open>/b.mp4\<close> answers that the codec is HEVC and ffmpeg is missing. The player ends in the
  state \<^verbatim>\<open>error\<close> with the message that names the codec, and yet the compat stream of
  \<^verbatim>\<open>/b.mp4\<close> has been requested and is the source of the element.
\<close>

theorem pending_probe_requests_compat_without_transcoder:
  "vstatus (run (mount ''/a.mp4'')
      [ErrorEvent, FileProp ''/b.mp4'', ErrorEvent, ProbeDone None,
       ProbeDone (Some hevc_without_ffmpeg)]) = Failed
   \<and> errorMsg (run (mount ''/a.mp4'')
      [ErrorEvent, FileProp ''/b.mp4'', ErrorEvent, ProbeDone None,
       ProbeDone (Some hevc_without_ffmpeg)]) = codec_message ''hevc''
   \<and> net (run (mount ''/a.mp4'')
      [ErrorEvent, FileProp ''/b.mp4'', ErrorEvent, ProbeDone None,
       ProbeDone (Some hevc_without_ffmpeg)])
     = [Load (PreviewUrl ''/a.mp4''), GetVideoInfo ''/a.mp4'', Load (PreviewUrl ''/b.mp4''),
        GetVideoInfo ''/b.mp4'', Load (PreviewCompatUrl ''/b.mp4'')]
   \<and> mounted (run (mount ''/a.mp4'')
      [ErrorEvent, FileProp ''/b.mp4'', ErrorEvent, ProbeDone None,
       ProbeDone (Some hevc_without_ffmpeg)]) = PreviewCompatUrl ''/b.mp4''
   \<and> useCompat (run (mount ''/a.mp4'')
      [ErrorEvent, FileProp ''/b.mp4'', ErrorEvent, ProbeDone None,
       ProbeDone (Some hevc_without_ffmpeg)])"
  by (simp add: run_def mount_def handleError_def handleError_resume_def try_compat_def reset_def
      commit_def render_src_def hevc_without_ffmpeg_def)

section \<open>The listing\<close>

lemma entries_of_append: "entries_of (xs @ ys) = entries_of xs @ entries_of ys"
  by (induction xs rule: entries_of.induct) simp_all

lemma entries_of_folders:
  "entries_of (map FolderCard fs) = map Inl fs" "entries_of (map FolderRow fs) = map Inl fs"
  by (induction fs) simp_all

lemma entries_of_files:
  "entries_of (map FileCardOf fs) = map Inr fs" "entries_of (map FileRowOf fs) = map Inr fs"
  by (induction fs) simp_all

lemma entries_of_render_main:
  "\<not> loading d \<Longrightarrow> entries_of (render_main d) = map Inl (folders d) @ map Inr (files d)"
  by (simp add: render_main_def entries_of_append entries_of_folders entries_of_files)

text \<open>
  C8. Whatever the listing that \<^verbatim>\<open>GET /files\<close> returns, for whatever path, search, filter and
  sort key, and in both views: the folders and the files arrive as two collections, and
  the page shows every folder before every file, the folders in the order of the answer
  and the files in the order of the answer. So does every page the dashboard renders: its
  entries are the folders it holds, then the files it holds (none while it is loading).
\<close>

theorem folders_before_files:
  "entries_of (render_main (loadFiles (Some data) d))
     = map Inl (or_empty (res_folders data)) @ map Inr (or_empty (res_files data))
   \<and> entries_of (render_main d)
     = (if loading d then [] else map Inl (folders d) @ map Inr (files d))"
  by (simp add: entries_of_render_main loadFiles_def) (simp add: render_main_def)

lemma type_icon_image: "type_icon ''image'' = ImageIcon"
  by (simp add: type_icon_def typeIcon_def)

text \<open>
  C7. The thumbnail of one entry fails to load (the entry is an image whose card shows the
  \<^verbatim>\<open><img>\<close>): the card records the error and shows the icon of the image type with the
  file's extension in place of the picture, the row shows the file icon; the listing has
  the same files in the same order, and every other card is exactly as it was.
\<close>

theorem thumbnail_failure_is_local:
  assumes "i < length cs" and "showThumb (fst (cs ! i)) (snd (cs ! i))"
  shows "length (thumbnail_failed i cs) = length cs
    \<and> map fst (thumbnail_failed i cs) = map fst cs
    \<and> thumbErr (snd (thumbnail_failed i cs ! i))
    \<and> FileCard w (fst (cs ! i)) (snd (thumbnail_failed i cs ! i))
        = IconBadge ImageIcon (extension (name (fst (cs ! i))))
    \<and> FileRow w (fst (cs ! i)) (snd (thumbnail_failed i cs ! i)) = RowIcon FileIcon
    \<and> (\<forall>j. j \<noteq> i \<longrightarrow> j < length cs \<longrightarrow> thumbnail_failed i cs ! j = cs ! j)"
proof -
  have t: "thumbnail_failed i cs = cs[i := (fst (cs ! i), onError (snd (cs ! i)))]"
    using assms by (simp add: thumbnail_failed_def)
  have f: "file_type (fst (cs ! i)) = ''image''"
    using assms(2) by (simp add: showThumb_def)
  have m: "map fst (cs[i := (fst (cs ! i), onError (snd (cs ! i)))]) = map fst cs"
    using assms(1) by (intro nth_equalityI) (auto simp: nth_list_update)
  show ?thesis
    unfolding t using assms(1) f m
    by (simp add: FileCard_def FileRow_def showThumb_def onError_def type_icon_image)
qed


theorem thumbnail_failure_is_local_witness:
  "showThumb (fst (two_cards ! 0)) (snd (two_cards ! 0))
   \<and> map (\<lambda>fc. FileCard stored_session (fst fc) (snd fc)) (thumbnail_failed 0 two_cards)
      = [IconBadge ImageIcon ''jpg'', Img ''/api/files/thumbnail?path=%2Fb.png&token=abc'' ''b.png'']"
proof -
  have l: "0 < length two_cards"
    by (simp add: two_cards_def)
  have s: "showThumb (fst (two_cards ! 0)) (snd (two_cards ! 0))"
    by (simp add: two_cards_def showThumb_def new_card_def photo_a_def)
  have e: "extension (name (fst (two_cards ! 0))) = ''jpg''"
    by (simp add: extension_def two_cards_def photo_a_def)
  have u: "thumbnailUrl stored_session ''/b.png'' = ''/api/files/thumbnail?path=%2Fb.png&token=abc''"
    by (simp add: thumbnailUrl_def template_def API_def encodeURIComponent_def encode_byte_def
        uri_unreserved_def hex_digit_def stored_session_def getToken_def)
  have n: "length (thumbnail_failed 0 two_cards) = 2"
    and a: "FileCard stored_session photo_a (snd (thumbnail_failed 0 two_cards ! 0))
        = IconBadge ImageIcon ''jpg''"
    and b: "thumbnail_failed 0 two_cards ! 1 = (photo_b, new_card)"
    and f: "map fst (thumbnail_failed 0 two_cards) = [photo_a, photo_b]"
    using thumbnail_failure_is_local [OF l s, of stored_session] e
    by (simp_all add: two_cards_def)
  obtain x y where xy: "thumbnail_failed 0 two_cards = [x, y]"
    using n by (auto simp: length_Suc_conv numeral_2_eq_2)
  with a b f have "fst x = photo_a"
      "FileCard stored_session photo_a (snd x) = IconBadge ImageIcon ''jpg''" "y = (photo_b, new_card)"
    by simp_all
  moreover have "FileCard stored_session photo_b new_card
      = Img ''/api/files/thumbnail?path=%2Fb.png&token=abc'' ''b.png''"
    using u by (simp add: FileCard_def showThumb_def new_card_def photo_b_def)
  ultimately have "map (\<lambda>fc. FileCard stored_session (fst fc) (snd fc)) [x, y]
      = [IconBadge ImageIcon ''jpg'', Img ''/api/files/thumbnail?path=%2Fb.png&token=abc'' ''b.png'']"
    by simp
  with s xy show ?thesis by simp
qed

section \<open>Sizes as text\<close>

text \<open>
  Where the index is the exact one, \<^verbatim>\<open>fmtSize\<close> is what its reader expects: \<^verbatim>\<open>0 B\<close> for a
  falsy size, and for \<open>1 \<le> b < 1024 ^ 5\<close> the quotient by \<open>1024 ^ i\<close> rounded to tenths (a
  tie upwards), without a final \<^verbatim>\<open>.0\<close>, a space, and the unit of that index.
\<close>

lemma fmtSize_falsy: "fmtSize floor_log None = ''0 B''" "fmtSize floor_log (Some 0) = ''0 B''"
  by (simp_all add: fmtSize_def)

lemma exact_index_bounds:
  "0 < b \<Longrightarrow> 1024 ^ exact_index b \<le> b \<and> b < 1024 ^ Suc (exact_index b)"
proof (induction b rule: exact_index.induct)
  case (1 b)
  show ?case
  proof (cases "b < 1024")
    case True
    with "1.prems" show ?thesis by (simp add: exact_index.simps)
  next
    case False
    then have e: "exact_index b = Suc (exact_index (b div 1024))"
      by (subst exact_index.simps) simp
    from False have "0 < b div 1024" by (simp add: div_greater_zero_iff)
    with "1.IH" False have ih: "1024 ^ exact_index (b div 1024) \<le> b div 1024"
        "b div 1024 < 1024 ^ Suc (exact_index (b div 1024))"
      by simp_all
    have "1024 * 1024 ^ exact_index (b div 1024) \<le> 1024 * (b div 1024)"
      using ih(1) by simp
    also have "\<dots> \<le> b" by simp
    finally have lo: "1024 ^ exact_index b \<le> b" by (simp add: e)
    have "b < 1024 * (b div 1024 + 1)"
      by (metis dividend_less_times_div add.commute mult.commute zero_less_numeral Suc_eq_plus1 mult_Suc_right)
    also have "\<dots> \<le> 1024 * 1024 ^ Suc (exact_index (b div 1024))"
      using ih(2) by (intro mult_le_mono2) simp
    finally have hi: "b < 1024 ^ Suc (exact_index b)" by (simp add: e)
    from lo hi show ?thesis by simp
  qed
qed

lemma exact_index_less:
  assumes "0 < b" and "b < 1024 ^ n"
  shows "exact_index b < n"
proof (rule ccontr)
  assume "\<not> exact_index b < n"
  then have "(1024::nat) ^ n \<le> 1024 ^ exact_index b"
    by (intro power_increasing) simp_all
  also have "\<dots> \<le> b"
    using exact_index_bounds [OF assms(1)] by simp
  finally show False using assms(2) by simp
qed

lemma div_brackets:
  fixes a d :: nat
  assumes "0 < d"
  shows "d * (a div d) \<le> a \<and> a < d * (a div d + 1)"
proof -
  have "a < d + d * (a div d)"
    using assms by (rule dividend_less_times_div)
  then show ?thesis by simp
qed

lemma tenths_rounds:
  "2 * 1024 ^ i * tenths b i \<le> 20 * b + 1024 ^ i
   \<and> 20 * b + 1024 ^ i < 2 * 1024 ^ i * (tenths b i + 1)"
  unfolding tenths_def by (rule div_brackets) simp

lemma fmtSize_exact:
  assumes "0 < b" and "b < 1024 ^ 5" and "floor_log b = exact_index b"
  shows "fmtSize floor_log (Some b)
     = number_text (tenths b (exact_index b)) @ '' '' @ units ! exact_index b"
proof -
  have "exact_index b < 5" using assms(1,2) by (rule exact_index_less)
  then show ?thesis
    using assms(1,3) by (simp add: fmtSize_def fmtSize_at_def unit_at_def units_def)
qed

lemma fmtSize_examples:
  "fmtSize exact_index (Some 1536) = ''1.5 KB''"
  "fmtSize exact_index (Some 1048575) = ''1024 KB''"
  "fmtSize exact_index (Some 1023) = ''1023 B''"
  "fmtSize exact_index (Some 1075) = ''1 KB''"
  "fmtSize exact_index (Some 1076) = ''1.1 KB''"
  by (simp_all add: exact_index.simps fmtSize_def fmtSize_at_def tenths_def number_text_def
      toFixed1_def unit_at_def units_def decimal.simps)

text \<open>
  C10. For every byte count \<open>b\<close> with \<open>1 \<le> b < 1024 ^ 5\<close> the text is to be \<open>b\<close> over
  \<open>1024 ^ i\<close> for \<open>i\<close> the floor of the logarithm of \<open>b\<close> to the base 1024, rounded to one
  decimal, with the unit of that index. The
  index is computed in doubles, and one byte below \<open>1024 ^ 5\<close> the doubles give 5 where the
  exact index is 4: \<open>ln (2^50 - 1)\<close> is nearer to the double \<open>34.657359027997266\<close>, which is
  \<^verbatim>\<open>Math.log(2 ** 50)\<close>, than to any other, and that double over \<^verbatim>\<open>Math.log(1024)\<close>, which
  is \<open>6.931471805599453\<close>, is \<open>5\<close>. With the index 5 the quotient rounds to \<open>1.0\<close> and the
  unit is beyond the array: the text is \<^verbatim>\<open>1 undefined\<close>, where the exact index gives
  \<^verbatim>\<open>1024 TB\<close>.
\<close>

theorem fmtSize_below_pebibyte:
  "exact_index 1125899906842623 = 4
   \<and> fmtSize_at 4 1125899906842623 = ''1024 TB''
   \<and> fmtSize (\<lambda>b. 5) (Some 1125899906842623) = ''1 undefined''"
  by (simp add: exact_index.simps fmtSize_def fmtSize_at_def tenths_def number_text_def
      toFixed1_def unit_at_def units_def decimal.simps)

section \<open>The media server, from the specification\<close>

subsection \<open>Range requests\<close>

lemma digit_nth: "d < 10 \<Longrightarrow> is_digit (''0123456789'' ! d) \<and> of_char (''0123456789'' ! d) - 48 = d"
proof -
  assume "d < 10"
  then have "d \<in> set [0 ..< 10]" by simp
  moreover have "list_all (\<lambda>d. is_digit (''0123456789'' ! d) \<and> of_char (''0123456789'' ! d) - 48 = d) [0 ..< 10]"
    by code_simp
  ultimately show ?thesis
    unfolding list_all_iff by blast
qed

lemma decimal_digits: "decimal n \<noteq> [] \<and> list_all is_digit (decimal n)"
proof (induction n rule: decimal.induct)
  case (1 n)
  show ?case
  proof (cases "n < 10")
    case True
    then show ?thesis
      using digit_nth [of n] by (subst (1 2) decimal.simps) simp
  next
    case False
    then show ?thesis
      using "1.IH" digit_nth [of "n mod 10"] by (subst (1 2) decimal.simps) simp
  qed
qed

lemma decimal_value: "foldl (\<lambda>n c. 10 * n + (of_char c - 48)) 0 (decimal n) = n"
proof (induction n rule: decimal.induct)
  case (1 n)
  show ?case
  proof (cases "n < 10")
    case True
    then show ?thesis
      using digit_nth [of n] by (subst decimal.simps) simp
  next
    case False
    then show ?thesis
      using "1.IH" digit_nth [of "n mod 10"] by (subst decimal.simps) simp
  qed
qed

lemma parse_nat_decimal: "parse_nat (decimal n) = Some n"
  by (simp add: parse_nat_def decimal_digits decimal_value)

lemma decimal_no_dash: "CHR ''-'' \<notin> set (decimal n)"
proof
  assume "CHR ''-'' \<in> set (decimal n)"
  then have "is_digit (CHR ''-'')"
    using decimal_digits [of n] by (auto simp: list_all_iff)
  then show False by (simp add: is_digit_def less_eq_char_def)
qed

lemma parse_range_open: "parse_range (''bytes='' @ decimal n @ ''-'') = Some (n, None)"
proof -
  have t: "takeWhile (\<lambda>c. c \<noteq> CHR ''-'') (decimal n @ ''-'') = decimal n"
    using decimal_no_dash [of n] by (subst takeWhile_append2) auto
  have d: "dropWhile (\<lambda>c. c \<noteq> CHR ''-'') (decimal n @ ''-'') = ''-''"
    using decimal_no_dash [of n] by (subst dropWhile_append2) auto
  show ?thesis
    by (simp add: parse_range_def t d parse_nat_decimal)
qed

lemma parse_range_closed:
  "parse_range (''bytes='' @ decimal n @ ''-'' @ decimal m) = Some (n, Some m)"
proof -
  have t: "takeWhile (\<lambda>c. c \<noteq> CHR ''-'') (decimal n @ CHR ''-'' # decimal m) = decimal n"
    using decimal_no_dash [of n] by (subst takeWhile_append2) auto
  have d: "dropWhile (\<lambda>c. c \<noteq> CHR ''-'') (decimal n @ CHR ''-'' # decimal m) = CHR ''-'' # decimal m"
    using decimal_no_dash [of n] by (subst dropWhile_append2) auto
  show ?thesis
    using decimal_digits [of m] by (simp add: parse_range_def t d parse_nat_decimal)
qed

text \<open>
  C2. For a virtual path that resolves to a file and every \<open>n\<close> below the size of the file,
  the preview with \<^verbatim>\<open>Range: bytes=n-\<close> is a 206 whose body is the file from byte \<open>n\<close> on,
  that is its last \<open>size - n\<close> bytes, with \<^verbatim>\<open>Content-Range: bytes n-(size-1)/size\<close>; a span
  \<^verbatim>\<open>bytes=n-m\<close> is clamped to the end of the file; and with no Range header the answer is
  the whole file with \<^verbatim>\<open>Content-Length\<close> the size.
\<close>

theorem range_request_serves_tail:
  assumes "resolve fs root vpath = Inr (p, File d)" and "n < length d"
  shows "streamPreview fs root vpath (Some (''bytes='' @ decimal n @ ''-''))
      = Inr \<lparr>code = 206,
             content_range = Some (''bytes '' @ decimal n @ ''-'' @ decimal (length d - 1) @ ''/''
                                    @ decimal (length d)),
             content_length = length d - n, content = drop n d\<rparr>
    \<and> (n \<le> m \<longrightarrow>
         streamPreview fs root vpath (Some (''bytes='' @ decimal n @ ''-'' @ decimal m))
           = Inr \<lparr>code = 206,
                  content_range = Some (''bytes '' @ decimal n @ ''-''
                     @ decimal (min m (length d - 1)) @ ''/'' @ decimal (length d)),
                  content_length = min m (length d - 1) + 1 - n,
                  content = take (min m (length d - 1) + 1 - n) (drop n d)\<rparr>)
    \<and> streamPreview fs root vpath None
      = Inr \<lparr>code = 200, content_range = None, content_length = length d, content = d\<rparr>"
proof -
  have o: "serve_range d (Some (''bytes='' @ decimal n @ ''-'')) = partial_content d n (length d - 1)"
    unfolding serve_range_def option.case parse_range_open using assms(2) by (simp add: Let_def)
  have c: "serve_range d (Some (''bytes='' @ decimal n @ ''-'' @ decimal m))
      = partial_content d n (min m (length d - 1))" if "n \<le> m"
    unfolding serve_range_def option.case parse_range_closed using assms(2) that by (simp add: Let_def)
  have f: "serve_range d None = full_content d"
    by (simp add: serve_range_def)
  have l: "length d - 1 + 1 - n = length d - n"
    using assms(2) by simp
  show ?thesis
    unfolding streamPreview_def assms(1) using o c f l
    by (simp add: partial_content_def full_content_def del: decimal.simps)
qed


lemma resolve_a: "resolve disk media_root ''/a.jpg'' = Inr ([''srv'', ''media'', ''a.jpg''], File ''0123456789'')"
  by (simp add: resolve_def canonical_def disk_def media_root_def symlink_limit_def)

theorem range_request_serves_tail_witness:
  "resolve disk media_root ''/a.jpg'' = Inr ([''srv'', ''media'', ''a.jpg''], File ''0123456789'')
   \<and> streamPreview disk media_root ''/a.jpg'' (Some ''bytes=4-'')
       = Inr \<lparr>code = 206, content_range = Some ''bytes 4-9/10'', content_length = 6,
              content = ''456789''\<rparr>
   \<and> streamPreview disk media_root ''/a.jpg'' (Some ''bytes=4-100'')
       = Inr \<lparr>code = 206, content_range = Some ''bytes 4-9/10'', content_length = 6,
              content = ''456789''\<rparr>
   \<and> streamPreview disk media_root ''/a.jpg'' None
       = Inr \<lparr>code = 200, content_range = None, content_length = 10, content = ''0123456789''\<rparr>"
proof -
  have r: "resolve disk media_root ''/a.jpg'' = Inr ([''srv'', ''media'', ''a.jpg''], File ''0123456789'')"
    by (simp add: resolve_def canonical_def disk_def media_root_def symlink_limit_def)
  have n: "(4::nat) < length ''0123456789''" by simp
  have d: "decimal 4 = ''4''" "decimal 9 = ''9''" "decimal 10 = ''10''" "decimal 100 = ''100''"
    by (simp_all add: decimal.simps)
  have l: "length ''0123456789'' = (10::nat)" by simp
  from range_request_serves_tail [OF r n, of 100, unfolded l] r d
  show ?thesis by simp
qed

subsection \<open>Containment\<close>

lemma resolve_escapes: "escapes fs root vpath \<Longrightarrow> resolve fs root vpath = Inl Forbidden"
  by (auto simp: escapes_def resolve_def split: option.splits)

lemma resolve_errors: "resolve fs root vpath = Inl e \<Longrightarrow> e = Forbidden \<or> e = NotFound"
  by (auto simp: resolve_def split: option.splits if_splits)

lemma streamZip_errors: "streamZip fs root vs = Inl e \<Longrightarrow> e = Forbidden \<or> e = NotFound"
proof (induction vs)
  case Nil
  then show ?case by simp
next
  case (Cons v vs)
  then show ?case
    by (auto split: sum.splits node.splits prod.splits dest: resolve_errors)
qed

lemma streamZip_escapes:
  assumes "escapes fs root vpath" and "vpath \<in> set vs"
  shows "\<exists>e. streamZip fs root vs = Inl e"
  using assms(2)
proof (induction vs)
  case Nil
  then show ?case by simp
next
  case (Cons v vs)
  show ?case
  proof (cases "v = vpath")
    case True
    then show ?thesis
      using resolve_escapes [OF assms(1)] by simp
  next
    case False
    with Cons obtain e where "streamZip fs root vs = Inl e" by auto
    then show ?thesis
      by (auto split: sum.splits node.splits prod.splits)
  qed
qed

text \<open>
  C1. A virtual path whose \<^verbatim>\<open>..\<close> segments or symbolic links lead outside MediaRoot (or that
  does not resolve at all) is refused by every endpoint that takes a path: the listing, the
  statistics, the preview, the thumbnail and the download answer \<open>Forbidden\<close>, and an
  archive that names it answers \<open>Forbidden\<close> or \<open>NotFound\<close>. The answer is an error of the
  taxonomy, which holds neither bytes of a file nor a path of the filesystem.
\<close>

theorem escaping_paths_are_refused:
  assumes "escapes fs root vpath"
  shows "list_dir fs root vpath = Inl Forbidden
    \<and> stats fs root vpath = Inl Forbidden
    \<and> streamPreview fs root vpath header = Inl Forbidden
    \<and> getThumbnail generate fs root vpath = Inl Forbidden
    \<and> streamDownload fs root vpath = Inl Forbidden
    \<and> (vpath \<in> set vs \<longrightarrow>
         streamZip fs root vs = Inl Forbidden \<or> streamZip fs root vs = Inl NotFound)"
proof -
  note r = resolve_escapes [OF assms]
  have z: "streamZip fs root vs = Inl Forbidden \<or> streamZip fs root vs = Inl NotFound"
    if "vpath \<in> set vs"
    using streamZip_escapes [OF assms that] streamZip_errors by blast
  show ?thesis
    using z by (simp add: list_dir_def stats_def streamPreview_def getThumbnail_def
        streamDownload_def r)
qed

theorem escaping_paths_are_refused_witness:
  "escapes disk media_root ''/../../etc/passwd'' \<and> escapes disk media_root ''/out/passwd''
   \<and> canonical disk media_root ''/out/passwd'' = Some [''etc'', ''passwd'']
   \<and> streamPreview disk media_root ''/out/passwd'' None = Inl Forbidden
   \<and> streamDownload disk media_root ''/../../etc/passwd'' = Inl Forbidden
   \<and> streamZip disk media_root [''/a.jpg'', ''/out/passwd''] = Inl Forbidden
   \<and> streamZip disk media_root [''/a.jpg''] = Inr [(''a.jpg'', ''0123456789'')]"
proof -
  have c: "canonical disk media_root ''/out/passwd'' = Some [''etc'', ''passwd'']"
    "canonical disk media_root ''/../../etc/passwd'' = Some [''etc'', ''passwd'']"
    by (simp_all add: canonical_def disk_def media_root_def symlink_limit_def)
  then have e: "escapes disk media_root ''/out/passwd''" "escapes disk media_root ''/../../etc/passwd''"
    by (simp_all add: escapes_def media_root_def)
  have z: "streamZip disk media_root [''/a.jpg'', ''/out/passwd''] = Inl Forbidden"
    "streamZip disk media_root [''/a.jpg''] = Inr [(''a.jpg'', ''0123456789'')]"
    using resolve_a by (simp_all add: resolve_escapes [OF e(1)])
  from escaping_paths_are_refused [OF e(1), of None] escaping_paths_are_refused [OF e(2)] e c z
  show ?thesis by simp
qed

text \<open>What the preview does return are bytes of a file that lies under MediaRoot.\<close>

lemma streamPreview_within_root:
  assumes "streamPreview fs root vpath header = Inr r"
  shows "\<exists>p d. prefix root p \<and> map_of fs p = Some (File d) \<and> r = serve_range d header"
  using assms
  by (auto simp: streamPreview_def resolve_def split: sum.splits option.splits if_splits node.splits)

end
